theory Spec2Isabelle
  imports Main "HOL-Library.Finite_Map" "HOL-Library.Multiset"
begin

section \<open>Shared data: stored transactions and route errors\<close>

text \<open>
  The route handlers read the transaction store through \<open>TransactionDB.get(queueId)\<close>
  and raise errors built by \<open>createCustomError(message, statusCode, code)\<close>.
  A stored transaction carries, among other fields, its \<open>status\<close> (a string compared
  with \<open>===\<close> in the source) and, once mined, its \<open>transactionHash\<close>.
\<close>

record transaction =
  queueId :: string
  status :: string
  transactionHash :: "string option"

type_synonym db = "string \<rightharpoonup> transaction"

record custom_error =
  message :: string
  statusCode :: nat
  code :: string

text \<open>\<open>StatusCodes.BAD_REQUEST\<close> and \<open>StatusCodes.OK\<close> of http-status-codes.\<close>

definition BAD_REQUEST :: nat where
  "BAD_REQUEST = 400"

definition createCustomError :: "string \<Rightarrow> nat \<Rightarrow> string \<Rightarrow> custom_error" where
  "createCustomError m s c = \<lparr>message = m, statusCode = s, code = c\<rparr>"

text \<open>
  A handler either throws a custom error, lets an exception of a collaborator
  propagate (\<open>Thrown\<close>), or replies.
\<close>

datatype 'a outcome = Custom custom_error | Thrown | Reply 'a

definition TransactionDB_get :: "string \<Rightarrow> db \<Rightarrow> transaction option" where
  \<comment> \<open>Modelled from the spec: \<open>TransactionDB.get\<close> (shared/db/transactions/db is not
      among the sources); the Store contract is \<open>get(id) -> record | NotFound\<close>, a read
      that returns the record stored under the id or nothing.\<close>
  "TransactionDB_get qid store = store qid"

text \<open>
  JavaScript truthiness of an optional string: \<open>undefined\<close> and \<open>""\<close> are falsy.
  \<open>present\<close> keeps a truthy string and maps a falsy one to \<open>None\<close>.
\<close>

definition present :: "string option \<Rightarrow> string option" where
  "present s = (case s of None \<Rightarrow> None | Some v \<Rightarrow> if v = [] then None else Some v)"

text \<open>A client error is an HTTP status in the 4xx range.\<close>

definition client_error :: "custom_error \<Rightarrow> bool" where
  "client_error e = (400 \<le> statusCode e \<and> statusCode e < 500)"

section \<open>GET /transaction/status/:queueId\<close>

text \<open>
  \<open>getTransactionStatusRoute\<close> (src/server/routes/transaction/status.ts, lines 73-88).
  \<open>toTransactionSchema\<close> is a collaborator that renders the stored record; it is a
  parameter. The handler is written in state-passing style: it returns its outcome
  together with the store it leaves behind.
\<close>

definition getTransactionStatusRoute ::
  "(transaction \<Rightarrow> 'v) \<Rightarrow> string \<Rightarrow> db \<Rightarrow> 'v outcome \<times> db" where
  "getTransactionStatusRoute toTransactionSchema qid store =
     (case TransactionDB_get qid store of
        None \<Rightarrow>
          (Custom (createCustomError ''Transaction not found.'' BAD_REQUEST
                     ''TRANSACTION_NOT_FOUND''), store)
      | Some t \<Rightarrow> (Reply (toTransactionSchema t), store))"

text \<open>
  \<open>getTransactionStatusQueryParamRoute\<close> (same file, lines 113-135): the queue id
  arrives as a query parameter and is checked for presence first.
\<close>

definition getTransactionStatusQueryParamRoute ::
  "(transaction \<Rightarrow> 'v) \<Rightarrow> string option \<Rightarrow> db \<Rightarrow> 'v outcome \<times> db" where
  "getTransactionStatusQueryParamRoute toTransactionSchema q store =
     (case present q of
        None \<Rightarrow>
          (Custom (createCustomError ''Queue ID is required.'' BAD_REQUEST
                     ''QUEUE_ID_REQUIRED''), store)
      | Some qid \<Rightarrow>
          (case TransactionDB_get qid store of
             None \<Rightarrow>
               (Custom (createCustomError ''Transaction not found.'' BAD_REQUEST
                          ''TRANSACTION_NOT_FOUND''), store)
           | Some t \<Rightarrow> (Reply (toTransactionSchema t), store)))"

section \<open>GET /transaction/logs\<close>

text \<open>
  \<open>getTransactionLogs\<close> (src/server/routes/transaction/blockchain/get-logs.ts, lines
  130-250). The chain of the request has been resolved before the part modelled here
  (lines 138-143), so the RPC read \<open>eth_getTransactionReceipt\<close> is a parameter already
  bound to that chain; it rejects (\<open>None\<close>) or yields a receipt. \<open>resolveContractAbi\<close>
  and \<open>parseEventLogs\<close> (with \<open>prepareEvent\<close>) are collaborators of the chain SDK and
  are parameters as well.
\<close>

record log_entry =
  address :: string
  topics :: "string list"
  log_data :: string

record receipt =
  receipt_to :: "string option"
  logs :: "log_entry list"

record abi_item =
  item_type :: string
  item_name :: string

record logs_query =
  query_queueId :: "string option"
  query_transactionHash :: "string option"
  parseLogs :: "bool option"

datatype 'p logs_reply = RawLogs "log_entry list" | ParsedLogs "'p list"

text \<open>
  Lines 153-162: the hash comes from the stored record when a queue id is given (and
  only if that record's status is exactly \<open>"mined"\<close>), else from the request.
\<close>

definition lookup_hash :: "logs_query \<Rightarrow> db \<Rightarrow> string option" where
  "lookup_hash q store =
     (case present (query_queueId q) of
        Some qid \<Rightarrow>
          (case TransactionDB_get qid store of
             None \<Rightarrow> None
           | Some t \<Rightarrow> if status t = ''mined'' then transactionHash t else None)
      | None \<Rightarrow> present (query_transactionHash q))"

text \<open>
  Lines 201-207: a \<open>Set\<close> of contract addresses, in insertion order: the receipt's
  \<open>to\<close>, then every truthy log address not yet in the set.
\<close>

fun add_contracts :: "string list \<Rightarrow> log_entry list \<Rightarrow> string list" where
  "add_contracts acc [] = acc"
| "add_contracts acc (l # ls) =
     (if address l \<noteq> [] \<and> address l \<notin> set acc
      then add_contracts (acc @ [address l]) ls
      else add_contracts acc ls)"

text \<open>\<open>Promise.all\<close> over the ABI lookups: it rejects when one of them rejects.\<close>

fun all_resolved :: "'a option list \<Rightarrow> 'a list option" where
  "all_resolved [] = Some []"
| "all_resolved (None # _) = None"
| "all_resolved (Some x # xs) =
     (case all_resolved xs of None \<Rightarrow> None | Some ys \<Rightarrow> Some (x # ys))"

definition getTransactionLogs ::
  "(string \<Rightarrow> receipt option) \<Rightarrow> (string \<Rightarrow> abi_item list option) \<Rightarrow>
   (abi_item list \<Rightarrow> log_entry list \<Rightarrow> 'p list) \<Rightarrow>
   logs_query \<Rightarrow> db \<Rightarrow> 'p logs_reply outcome \<times> db" where
  "getTransactionLogs eth_getTransactionReceipt resolveContractAbi parseEventLogs q store =
     (if present (query_queueId q) = None \<and> present (query_transactionHash q) = None then
        (Custom (createCustomError
           ''Either a queue ID or transaction hash must be provided.''
           BAD_REQUEST ''MISSING_TRANSACTION_ID''), store)
      else
        (case present (lookup_hash q store) of
           None \<Rightarrow>
             (Custom (createCustomError
                ''Could not find transaction, or transaction is not mined.''
                BAD_REQUEST ''TRANSACTION_NOT_MINED''), store)
         | Some hash \<Rightarrow>
             (case eth_getTransactionReceipt hash of
                None \<Rightarrow>
                  (Custom (createCustomError
                     ''Unable to get transaction receipt. The transaction may not have been mined yet.''
                     BAD_REQUEST ''TRANSACTION_NOT_MINED''), store)
              | Some transactionReceipt \<Rightarrow>
                  (if parseLogs q = Some False then
                     (Reply (RawLogs (logs transactionReceipt)), store)
                   else
                     (case present (receipt_to transactionReceipt) of
                        None \<Rightarrow>
                          (Custom (createCustomError
                             ''Transaction logs are only supported for contract calls.''
                             BAD_REQUEST ''TRANSACTION_LOGS_UNAVAILABLE''), store)
                      | Some recipient \<Rightarrow>
                          (case all_resolved (map resolveContractAbi
                                  (add_contracts [recipient] (logs transactionReceipt))) of
                             None \<Rightarrow> (Thrown, store)
                           | Some abis \<Rightarrow>
                               (let combinedEventSignatures =
                                      concat (map (filter (\<lambda>item. item_type item = ''event'')) abis)
                                in if combinedEventSignatures = [] then
                                     (Custom (createCustomError
                                        ''No events found in contract or could not resolve contract ABI''
                                        BAD_REQUEST ''NO_EVENTS_FOUND''), store)
                                   else
                                     (Reply (ParsedLogs (parseEventLogs combinedEventSignatures
                                        (logs transactionReceipt))), store))))))))"

section \<open>POST /backend-wallet/:chain/send-transaction-batch\<close>

text \<open>
  \<open>sendTransactionBatch\<close> (lines 57-91 of its route file). The request body is a list
  of raw transaction requests; the handler walks it with a \<open>for ... of\<close> loop, awaits
  \<open>insertTransaction\<close> for each element and pushes the returned queue id.

  \<open>insertTransaction\<close>, \<open>parseTransactionOverrides\<close> and JavaScript's \<open>BigInt\<close> are
  parameters. Each may throw (\<open>None\<close>); \<open>insertTransaction\<close> works on the transaction
  store, whose type is left open, and returns the store it leaves behind. The object
  that \<open>parseTransactionOverrides\<close> returns is spread last into the inserted
  transaction, so its properties replace those of the same name written before it
  (\<open>value\<close> included); its result is modelled as the map that applies them, and
  \<open>ins_overrides\<close> holds the properties that only the overrides provide. The chain
  id of the request has been resolved before the loop.
\<close>

record 'o tx_request =
  toAddress :: "string option"
  tx_data :: string
  tx_value :: string
  txOverrides :: "'o option"

record 'p inserted_transaction =
  isUserOp :: bool
  ins_chainId :: nat
  transactionMode :: "string option"
  ins_from :: string
  ins_to :: "string option"
  ins_data :: string
  ins_value :: int
  ins_overrides :: "'p option"

record ('o, 'p, 's) batch_env =
  BigInt :: "string \<Rightarrow> int option"
  parseTransactionOverrides ::
    "'o option \<Rightarrow> ('p inserted_transaction \<Rightarrow> 'p inserted_transaction) option"
  insertTransaction :: "'p inserted_transaction \<Rightarrow> 's \<Rightarrow> string option \<times> 's"

record batch_request =
  req_chainId :: nat
  req_fromAddress :: string
  req_transactionMode :: "string option"

text \<open>
  The body of the loop (lines 69-82): destructure the request, evaluate
  \<open>BigInt(value)\<close>, then the overrides, spread them over the object and insert it.
\<close>

definition insert_request ::
  "('o, 'p, 's) batch_env \<Rightarrow> batch_request \<Rightarrow> 'o tx_request \<Rightarrow> 's \<Rightarrow> string option \<times> 's" where
  "insert_request env rq transactionRequest store =
     (case BigInt env (tx_value transactionRequest) of
        None \<Rightarrow> (None, store)
      | Some v \<Rightarrow>
          (case parseTransactionOverrides env (txOverrides transactionRequest) of
             None \<Rightarrow> (None, store)
           | Some spread \<Rightarrow>
               insertTransaction env
                 (spread
                    \<lparr>isUserOp = False,
                     ins_chainId = req_chainId rq,
                     transactionMode = req_transactionMode rq,
                     ins_from = req_fromAddress rq,
                     ins_to = toAddress transactionRequest,
                     ins_data = tx_data transactionRequest,
                     ins_value = v,
                     ins_overrides = None\<rparr>) store))"

text \<open>The loop of lines 67-84, with the \<open>queueIds\<close> array as accumulator.\<close>

fun batch_loop ::
  "('o, 'p, 's) batch_env \<Rightarrow> batch_request \<Rightarrow> 'o tx_request list \<Rightarrow> string list \<Rightarrow> 's \<Rightarrow>
   string list outcome \<times> 's" where
  "batch_loop env rq [] queueIds store = (Reply queueIds, store)"
| "batch_loop env rq (transactionRequest # rest) queueIds store =
     (case insert_request env rq transactionRequest store of
        (None, store') \<Rightarrow> (Thrown, store')
      | (Some qid, store') \<Rightarrow> batch_loop env rq rest (queueIds @ [qid]) store')"

definition sendTransactionBatch ::
  "('o, 'p, 's) batch_env \<Rightarrow> batch_request \<Rightarrow> 'o tx_request list \<Rightarrow> 's \<Rightarrow>
   string list outcome \<times> 's" where
  "sendTransactionBatch env rq transactionRequests store =
     batch_loop env rq transactionRequests [] store"

section \<open>The smart wallet cache\<close>

text \<open>
  \<open>getSmartWalletV5\<close> (src/utils/cache/getSmartWalletV5.ts). \<open>smartWalletsCache\<close> is
  a module-level \<open>Map\<close> from a string key to a connected account; the function
  reads and writes it, so it takes the cache and returns the cache it leaves.
  The collaborators are parameters, each of which may reject (\<open>None\<close>):
  \<open>readFactory\<close> stands for \<open>readContract\<close> of \<open>factory()\<close> on the smart-account
  contract, \<open>getAccount\<close> for the backend account lookup, and \<open>connectSmartWallet\<close>
  for \<open>smartWallet({chain, sponsorGas: true, factoryAddress}).connect(...)\<close>.
\<close>

record chain =
  chain_id :: nat
  chain_rpc :: string

record smart_wallet_params =
  param_chain :: chain
  accountAddress :: string
  param_from :: string
  accountFactoryAddress :: "string option"

text \<open>A chain id inside a template literal: its decimal digits.\<close>

fun decimal :: "nat \<Rightarrow> string" where
  "decimal n =
     (if n < 10 then [char_of (48 + n)]
      else decimal (n div 10) @ [char_of (48 + n mod 10)])"

declare decimal.simps [simp del]

text \<open>Line 22: \<open>`${chain.id}-${accountAddress}-${from}`\<close>.\<close>

definition cacheKey :: "smart_wallet_params \<Rightarrow> string" where
  "cacheKey p =
     decimal (chain_id (param_chain p)) @ ''-'' @ accountAddress p @ ''-'' @ param_from p"

record ('a, 'w) wallet_env =
  readFactory :: "chain \<Rightarrow> string \<Rightarrow> string option"
  getAccount :: "nat \<Rightarrow> string \<Rightarrow> 'a option"
  connectSmartWallet :: "chain \<Rightarrow> string \<Rightarrow> 'a \<Rightarrow> 'w option"

definition getSmartWalletV5 ::
  "('a, 'w) wallet_env \<Rightarrow> smart_wallet_params \<Rightarrow> (string \<rightharpoonup> 'w) \<Rightarrow>
   'w outcome \<times> (string \<rightharpoonup> 'w)" where
  "getSmartWalletV5 env p smartWalletsCache =
     (case smartWalletsCache (cacheKey p) of
        Some cachedWallet \<Rightarrow> (Reply cachedWallet, smartWalletsCache)
      | None \<Rightarrow>
          (case (case present (accountFactoryAddress p) of
                   Some f \<Rightarrow> Some f
                 | None \<Rightarrow> readFactory env (param_chain p) (accountAddress p)) of
             None \<Rightarrow> (Thrown, smartWalletsCache)
           | Some factoryAddress \<Rightarrow>
               (case getAccount env (chain_id (param_chain p)) (param_from p) of
                  None \<Rightarrow> (Thrown, smartWalletsCache)
                | Some account \<Rightarrow>
                    (case connectSmartWallet env (param_chain p) factoryAddress account of
                       None \<Rightarrow> (Thrown, smartWalletsCache)
                     | Some smartAccount \<Rightarrow>
                         (Reply smartAccount,
                          smartWalletsCache(cacheKey p \<mapsto> smartAccount))))))"

section \<open>The chain indexer registry\<close>

text \<open>
  \<open>manageChainIndexers\<close> (src/worker/tasks/manage-chain-indexers.ts) reconciles the
  registry of running chain indexers with the chain ids that have contract
  subscriptions. The registry, \<open>addChainIndexer\<close> and \<open>removeChainIndexer\<close> live in
  worker/indexers/chain-indexer-registry, which is not among the sources, and neither
  is \<open>getContractSubscriptionsUniqueChainIds\<close>.

  \<open>INDEXER_REGISTRY\<close> is an object keyed by chain id; the task only tests keys
  (\<open>chainId in INDEXER_REGISTRY\<close>) and enumerates them, so the model keeps its finite
  key set. \<open>started\<close> and \<open>stopped\<close> list the chain ids of the watch tasks that have
  been started and stopped, in that order. Chain ids are natural numbers; the
  registry's string keys and \<open>Number.parseInt\<close> convert them back and forth without
  loss.
\<close>

record indexers =
  INDEXER_REGISTRY :: "nat fset"
  started :: "nat list"
  stopped :: "nat list"

text \<open>
  The awaited collaborators as the task sees them: the chain ids that
  \<open>getContractSubscriptionsUniqueChainIds\<close> yields (\<open>None\<close> when it rejects), and
  whether starting or stopping the indexer of a chain rejects.
\<close>

record registry_env =
  getContractSubscriptionsUniqueChainIds :: "nat list option"
  start_rejects :: "nat \<Rightarrow> bool"
  stop_rejects :: "nat \<Rightarrow> bool"

definition addChainIndexer :: "registry_env \<Rightarrow> nat \<Rightarrow> indexers \<Rightarrow> indexers option" where
  \<comment> \<open>Modelled from the spec: \<open>addChainIndexer\<close> of the chain indexer registry (not
      among the sources). Reconciliation is to "start one" for a chain id without a
      running handle, with "initial cursor = current chain head, or a persisted
      last-processed block if one exists". This is what a call has done once it has
      completed: the watch task runs and the chain id is registered. The test for an
      existing handle is the caller's (line 12).\<close>
  "addChainIndexer env c s =
     (if start_rejects env c then None
      else Some (s\<lparr>INDEXER_REGISTRY := finsert c (INDEXER_REGISTRY s),
                   started := started s @ [c]\<rparr>))"

definition removeChainIndexer :: "registry_env \<Rightarrow> nat \<Rightarrow> indexers \<Rightarrow> indexers option" where
  \<comment> \<open>Modelled from the spec: \<open>removeChainIndexer\<close> of the chain indexer registry (not
      among the sources). A handle no longer desired is to be stopped "cleanly (finish
      the in-flight block batch, persist the cursor, release resources)" and is
      "destroyed". This is what a call has done once it has completed: the registered
      task, if there is one, is stopped and its key deleted.\<close>
  "removeChainIndexer env c s =
     (if stop_rejects env c then None
      else if c |\<in>| INDEXER_REGISTRY s
      then Some (s\<lparr>INDEXER_REGISTRY := INDEXER_REGISTRY s |-| {|c|},
                   stopped := stopped s @ [c]\<rparr>)
      else Some s)"






subsection \<open>Two runs in one event loop\<close>

text \<open>
  The task is an \<open>async\<close> function and holds no lock: a run is suspended at each
  \<open>await\<close>, and another run started meanwhile proceeds on the same registry. A run is
  \<open>Fetching\<close> the desired chain ids; \<open>Adding\<close>, with the chain ids still to visit in the
  first loop; \<open>Starting\<close>, when it has found a chain id missing (line 12), has called
  \<open>addChainIndexer\<close> (line 13) and awaits it; \<open>Removing\<close>, with the keys still to visit
  in the second loop; \<open>Stopping\<close>, when it has called \<open>removeChainIndexer\<close> (line 20)
  and awaits it; \<open>Finished\<close>; or \<open>Rejected\<close>, when an awaited call has rejected. The
  desired chain ids are kept in the state once fetched. The effect of an awaited
  call takes place when the call completes and the run resumes. \<open>step\<close> is what a run
  does between two points at which another run may proceed.
\<close>

datatype run_state =
    Fetching
  | Adding "nat list" "nat list"
  | Starting "nat list" nat "nat list"
  | Removing "nat list" "nat list"
  | Stopping "nat list" nat "nat list"
  | Finished
  | Rejected

fun step :: "registry_env \<Rightarrow> run_state \<Rightarrow> indexers \<Rightarrow> run_state \<times> indexers" where
  "step env Fetching s =
     (case getContractSubscriptionsUniqueChainIds env of
        None \<Rightarrow> (Rejected, s)
      | Some D \<Rightarrow> (Adding D D, s))"
| "step env (Adding D []) s = (Removing D (sorted_list_of_fset (INDEXER_REGISTRY s)), s)"
| "step env (Adding D (c # cs)) s =
     (if c |\<notin>| INDEXER_REGISTRY s then (Starting D c cs, s) else (Adding D cs, s))"
| "step env (Starting D c cs) s =
     (case addChainIndexer env c s of
        None \<Rightarrow> (Rejected, s)
      | Some s' \<Rightarrow> (Adding D cs, s'))"
| "step env (Removing D []) s = (Finished, s)"
| "step env (Removing D (k # ks)) s =
     (if k |\<in>| INDEXER_REGISTRY s \<and> k \<notin> set D then (Stopping D k ks, s)
      else (Removing D ks, s))"
| "step env (Stopping D k ks) s =
     (case removeChainIndexer env k s of
        None \<Rightarrow> (Rejected, s)
      | Some s' \<Rightarrow> (Removing D ks, s'))"
| "step env Finished s = (Finished, s)"
| "step env Rejected s = (Rejected, s)"

text \<open>
  Two runs under a schedule: each entry says which run takes the next step (\<open>True\<close>
  for the first).
\<close>

fun interleave ::
  "registry_env \<Rightarrow> bool list \<Rightarrow> run_state \<times> run_state \<times> indexers \<Rightarrow>
   run_state \<times> run_state \<times> indexers" where
  "interleave env [] cfg = cfg"
| "interleave env (b # bs) (t1, t2, s) =
     (if b then (case step env t1 s of (t1', s') \<Rightarrow> interleave env bs (t1', t2, s'))
      else (case step env t2 s of (t2', s') \<Rightarrow> interleave env bs (t1, t2', s')))"

section \<open>The transaction store\<close>

text \<open>
  Modelled from the spec: the Transaction Store and the \<open>enqueue\<close> and \<open>cancel\<close>
  operations of the orchestration engine. None of their code is among the sources
  (the routes only call \<open>insertTransaction\<close>, \<open>queueTransaction\<close> and
  \<open>TransactionDB.get\<close>), so this section follows the spec's data model (section 3),
  the Store contract (section 4.1) and the external interfaces (section 6).

  A \<open>TransactionRequest\<close> has the status \<open>queued\<close>, \<open>submitted\<close>, \<open>mined\<close>,
  \<open>errored\<close> or \<open>cancelled\<close>; \<open>mined\<close>, \<open>errored\<close> and \<open>cancelled\<close> are the terminal
  ones. Ids are natural numbers, times are natural numbers, and the store is the list
  of its records in insertion order (records are never deleted).
\<close>

datatype tx_status = Queued | Submitted | Mined | Errored | Cancelled

fun terminal :: "tx_status \<Rightarrow> bool" where
  "terminal Queued = False"
| "terminal Submitted = False"
| "terminal Mined = True"
| "terminal Errored = True"
| "terminal Cancelled = True"

record fee_overrides =
  gasLimit :: "nat option"
  feeValue :: "nat option"

record prepared_call =
  call_chainId :: nat
  call_from :: string
  call_to :: string
  call_data :: string
  call_value :: nat

record transaction_request =
  tr_id :: nat
  tr_chainId :: nat
  tr_from :: string
  tr_to :: string
  tr_data :: string
  tr_value :: nat
  tr_idempotencyKey :: "string option"
  tr_overrides :: "fee_overrides option"
  tr_nonce :: "nat option"
  tr_status :: tx_status
  tr_txHash :: "string option"
  tr_submittedAt :: "nat option"
  tr_minedAt :: "nat option"
  tr_blockNumber :: "nat option"
  tr_errorMessage :: "string option"
  tr_retryCount :: nat

type_synonym store = "transaction_request list"

datatype store_error = NotFound | InvalidTransition

datatype insert_result = Inserted nat | DuplicateIdempotencyKey nat

definition store_get :: "nat \<Rightarrow> store \<Rightarrow> store_error + transaction_request" where
  \<comment> \<open>Modelled from the spec: the Store's \<open>get(id) -> record | NotFound\<close>.\<close>
  "store_get i s = (case find (\<lambda>r. tr_id r = i) s of None \<Rightarrow> Inl NotFound | Some r \<Rightarrow> Inr r)"

definition recently_succeeded :: "nat \<Rightarrow> nat \<Rightarrow> transaction_request \<Rightarrow> bool" where
  \<comment> \<open>Modelled from the spec: "recently-succeeded" of the idempotency rule. The spec gives
      no length for "recently"; \<open>window\<close> is that length and \<open>now\<close> the time of the call.\<close>
  "recently_succeeded window now r =
     (tr_status r = Mined \<and>
      (case tr_minedAt r of None \<Rightarrow> False | Some t \<Rightarrow> now \<le> t + window))"

definition holds_key :: "nat \<Rightarrow> nat \<Rightarrow> string \<Rightarrow> transaction_request \<Rightarrow> bool" where
  \<comment> \<open>Modelled from the spec: "a non-terminal or recently-succeeded record with the same
      key exists".\<close>
  "holds_key window now k r =
     (tr_idempotencyKey r = Some k \<and>
      (\<not> terminal (tr_status r) \<or> recently_succeeded window now r))"

definition fresh_id :: "store \<Rightarrow> nat" where
  \<comment> \<open>Modelled from the spec: the id is an "opaque unique identifier ... generated at
      enqueue time"; here the least number above every id in the store.\<close>
  "fresh_id s = fold (\<lambda>r n. max n (Suc (tr_id r))) s 0"

definition store_insert ::
  "nat \<Rightarrow> nat \<Rightarrow> transaction_request \<Rightarrow> store \<Rightarrow> insert_result \<times> store" where
  \<comment> \<open>Modelled from the spec: the Store's \<open>insert(record) -> id\<close>, which "fails with
      DuplicateIdempotencyKey returning the prior id" when a record holds the key.\<close>
  "store_insert window now r s =
     (case (case tr_idempotencyKey r of
              None \<Rightarrow> None
            | Some k \<Rightarrow> find (holds_key window now k) s) of
        Some prior \<Rightarrow> (DuplicateIdempotencyKey (tr_id prior), s)
      | None \<Rightarrow> (Inserted (fresh_id s), s @ [r\<lparr>tr_id := fresh_id s\<rparr>]))"

definition new_request ::
  "prepared_call \<Rightarrow> string option \<Rightarrow> fee_overrides option \<Rightarrow> transaction_request" where
  \<comment> \<open>Modelled from the spec: the record "created on enqueue", with status \<open>queued\<close>, no
      nonce yet and a retry count of zero.\<close>
  "new_request pc key ov =
     \<lparr>tr_id = 0, tr_chainId = call_chainId pc, tr_from = call_from pc, tr_to = call_to pc,
      tr_data = call_data pc, tr_value = call_value pc, tr_idempotencyKey = key,
      tr_overrides = ov, tr_nonce = None, tr_status = Queued, tr_txHash = None,
      tr_submittedAt = None, tr_minedAt = None, tr_blockNumber = None,
      tr_errorMessage = None, tr_retryCount = 0\<rparr>"

definition enqueue ::
  "nat \<Rightarrow> nat \<Rightarrow> prepared_call \<Rightarrow> string option \<Rightarrow> fee_overrides option \<Rightarrow> store \<Rightarrow>
   nat \<times> store" where
  \<comment> \<open>Modelled from the spec: \<open>enqueue(PreparedCall, idempotencyKey?, overrides?) -> id\<close>;
      an idempotency collision is "not a failure - returns prior id".\<close>
  "enqueue window now pc key ov s =
     (case store_insert window now (new_request pc key ov) s of
        (DuplicateIdempotencyKey prior, s') \<Rightarrow> (prior, s')
      | (Inserted i, s') \<Rightarrow> (i, s'))"

text \<open>Replaces the record stored under an id (the first with that id).\<close>

fun update_record ::
  "nat \<Rightarrow> (transaction_request \<Rightarrow> transaction_request) \<Rightarrow> store \<Rightarrow> store" where
  "update_record i f [] = []"
| "update_record i f (r # rs) =
     (if tr_id r = i then f r # rs else r # update_record i f rs)"

definition markCancelled :: "nat \<Rightarrow> store \<Rightarrow> (store_error + unit) \<times> store" where
  \<comment> \<open>Modelled from the spec: \<open>markCancelled(id)\<close> "fails with InvalidTransition if status
      is not queued"; \<open>cancel(id) -> ok | InvalidTransition\<close> has no other outcome.\<close>
  "markCancelled i s =
     (case store_get i s of
        Inl e \<Rightarrow> (Inl InvalidTransition, s)
      | Inr r \<Rightarrow>
          if tr_status r = Queued
          then (Inr (), update_record i (\<lambda>x. x\<lparr>tr_status := Cancelled\<rparr>) s)
          else (Inl InvalidTransition, s))"

text \<open>A call for the examples below.\<close>

definition example_call :: prepared_call where
  "example_call =
     \<lparr>call_chainId = 137, call_from = ''0xA'', call_to = ''0xB'', call_data = ''0x'',
      call_value = 0\<rparr>"

section \<open>Properties of the status route\<close>

text \<open>
  Claim C6. For every queue id, the status route replies with the view of the stored
  record when the store holds one under that id, and throws the client error
  TRANSACTION_NOT_FOUND (HTTP 400) when it holds none; in both cases the store it
  leaves behind is the store it was given.
\<close>

theorem getStatus_view_or_not_found:
  "snd (getTransactionStatusRoute view qid store) = store \<and>
   (case TransactionDB_get qid store of
      Some t \<Rightarrow> fst (getTransactionStatusRoute view qid store) = Reply (view t)
    | None \<Rightarrow>
        (\<exists>e. fst (getTransactionStatusRoute view qid store) = Custom e \<and>
             code e = ''TRANSACTION_NOT_FOUND'' \<and> client_error e))"
  by (simp add: getTransactionStatusRoute_def createCustomError_def client_error_def
      BAD_REQUEST_def split: option.split)

text \<open>The query-parameter variant of the route behaves alike once the id is present.\<close>

lemma getTransactionStatusQueryParamRoute_present:
  "q = Some qid \<Longrightarrow> qid \<noteq> [] \<Longrightarrow>
   getTransactionStatusQueryParamRoute view q store = getTransactionStatusRoute view qid store"
  by (simp add: getTransactionStatusQueryParamRoute_def getTransactionStatusRoute_def present_def)

section \<open>Properties of the logs route\<close>

lemma getTransactionLogs_store: "snd (getTransactionLogs rc abi prs q store) = store"
  by (simp add: getTransactionLogs_def Let_def split: option.split)

lemma lookup_hash_by_queueId:
  "query_queueId q = Some qid \<Longrightarrow> qid \<noteq> [] \<Longrightarrow>
   lookup_hash q store =
     (case store qid of None \<Rightarrow> None
      | Some t \<Rightarrow> if status t = ''mined'' then transactionHash t else None)"
  by (simp add: lookup_hash_def present_def TransactionDB_get_def)

lemma getTransactionLogs_no_hash:
  "query_queueId q = Some qid \<Longrightarrow> qid \<noteq> [] \<Longrightarrow> present (lookup_hash q store) = None \<Longrightarrow>
   fst (getTransactionLogs rc abi prs q store) =
     Custom (createCustomError ''Could not find transaction, or transaction is not mined.''
       BAD_REQUEST ''TRANSACTION_NOT_MINED'')"
  by (simp add: getTransactionLogs_def present_def)

lemma getTransactionLogs_reply_hash:
  "fst (getTransactionLogs rc abi prs q store) = Reply r \<Longrightarrow>
   present (lookup_hash q store) \<noteq> None"
  by (auto simp: getTransactionLogs_def Let_def split: option.splits if_splits)

text \<open>A mined record with a hash and a receipt does get its logs.\<close>

lemma getTransactionLogs_mined_raw:
  assumes "query_queueId q = Some qid" and "qid \<noteq> []"
    and "store qid = Some t" and "status t = ''mined''"
    and "transactionHash t = Some h" and "h \<noteq> []"
    and "rc h = Some r" and "parseLogs q = Some False"
  shows "getTransactionLogs rc abi prs q store = (Reply (RawLogs (logs r)), store)"
  using assms
  by (simp add: getTransactionLogs_def lookup_hash_def present_def TransactionDB_get_def)

text \<open>
  Claim C9. For every logs request that carries a (non-empty) queue id, whatever else
  it carries: the handler leaves the store as it found it; it replies with logs only
  if the store holds a record under that queue id whose status is exactly
  \<open>"mined"\<close>; and if the record is missing or has any other status, it throws the
  client error TRANSACTION_NOT_MINED (HTTP 400) instead of replying.
\<close>

theorem getTransactionLogs_by_queueId:
  assumes "query_queueId q = Some qid" and "qid \<noteq> []"
  shows "snd (getTransactionLogs rc abi prs q store) = store \<and>
         (\<forall>r. fst (getTransactionLogs rc abi prs q store) = Reply r \<longrightarrow>
              (\<exists>t. store qid = Some t \<and> status t = ''mined'')) \<and>
         ((\<forall>t. store qid = Some t \<longrightarrow> status t \<noteq> ''mined'') \<longrightarrow>
              (\<exists>e. fst (getTransactionLogs rc abi prs q store) = Custom e \<and>
                   code e = ''TRANSACTION_NOT_MINED'' \<and> client_error e \<and>
                   statusCode e = BAD_REQUEST))"
proof (intro conjI allI impI)
  show "snd (getTransactionLogs rc abi prs q store) = store"
    by (rule getTransactionLogs_store)
next
  fix r
  assume "fst (getTransactionLogs rc abi prs q store) = Reply r"
  then have "present (lookup_hash q store) \<noteq> None"
    by (rule getTransactionLogs_reply_hash)
  then have "lookup_hash q store \<noteq> None"
    by (auto simp: present_def split: option.splits)
  with assms show "\<exists>t. store qid = Some t \<and> status t = ''mined''"
    by (auto simp: lookup_hash_by_queueId split: option.splits if_splits)
next
  assume other: "\<forall>t. store qid = Some t \<longrightarrow> status t \<noteq> ''mined''"
  with assms have "lookup_hash q store = None"
    by (auto simp: lookup_hash_by_queueId split: option.splits)
  then have "present (lookup_hash q store) = None"
    by (simp add: present_def)
  with assms have "fst (getTransactionLogs rc abi prs q store) =
     Custom (createCustomError ''Could not find transaction, or transaction is not mined.''
       BAD_REQUEST ''TRANSACTION_NOT_MINED'')"
    by (rule getTransactionLogs_no_hash)
  then show "\<exists>e. fst (getTransactionLogs rc abi prs q store) = Custom e \<and>
       code e = ''TRANSACTION_NOT_MINED'' \<and> client_error e \<and> statusCode e = BAD_REQUEST"
    by (simp add: createCustomError_def client_error_def BAD_REQUEST_def)
qed

theorem getTransactionLogs_by_queueId_witness:
  "snd (getTransactionLogs (\<lambda>h. None) (\<lambda>a. None) (\<lambda>evs ls. ([] :: nat list))
          \<lparr>query_queueId = Some ''q1'', query_transactionHash = None, parseLogs = None\<rparr>
          [''q1'' \<mapsto> \<lparr>queueId = ''q1'', status = ''queued'', transactionHash = None\<rparr>])
     = [''q1'' \<mapsto> \<lparr>queueId = ''q1'', status = ''queued'', transactionHash = None\<rparr>] \<and>
   (\<exists>e. fst (getTransactionLogs (\<lambda>h. None) (\<lambda>a. None) (\<lambda>evs ls. ([] :: nat list))
          \<lparr>query_queueId = Some ''q1'', query_transactionHash = None, parseLogs = None\<rparr>
          [''q1'' \<mapsto> \<lparr>queueId = ''q1'', status = ''queued'', transactionHash = None\<rparr>])
        = Custom e \<and> code e = ''TRANSACTION_NOT_MINED'' \<and> client_error e)"
  using getTransactionLogs_by_queueId [of
      "\<lparr>query_queueId = Some ''q1'', query_transactionHash = None, parseLogs = None\<rparr>" "''q1''"
      "\<lambda>h. None" "\<lambda>a. None" "\<lambda>evs ls. ([] :: nat list)"
      "[''q1'' \<mapsto> \<lparr>queueId = ''q1'', status = ''queued'', transactionHash = None\<rparr>]"]
  by auto

section \<open>Properties of the batch route\<close>

lemma insert_request_Some:
  "insert_request env rq r st = (Some qid, st') \<longleftrightarrow>
   (\<exists>v spread. BigInt env (tx_value r) = Some v \<and>
      parseTransactionOverrides env (txOverrides r) = Some spread \<and>
      insertTransaction env
        (spread \<lparr>isUserOp = False, ins_chainId = req_chainId rq,
                 transactionMode = req_transactionMode rq, ins_from = req_fromAddress rq,
                 ins_to = toAddress r, ins_data = tx_data r, ins_value = v,
                 ins_overrides = None\<rparr>) st = (Some qid, st'))"
  by (auto simp: insert_request_def split: option.splits)

lemma insert_request_None:
  "insert_request env rq r st = (None, st') \<longleftrightarrow>
   (BigInt env (tx_value r) = None \<and> st' = st) \<or>
   (\<exists>v. BigInt env (tx_value r) = Some v \<and>
      parseTransactionOverrides env (txOverrides r) = None \<and> st' = st) \<or>
   (\<exists>v spread. BigInt env (tx_value r) = Some v \<and>
      parseTransactionOverrides env (txOverrides r) = Some spread \<and>
      insertTransaction env
        (spread \<lparr>isUserOp = False, ins_chainId = req_chainId rq,
                 transactionMode = req_transactionMode rq, ins_from = req_fromAddress rq,
                 ins_to = toAddress r, ins_data = tx_data r, ins_value = v,
                 ins_overrides = None\<rparr>) st = (None, st'))"
  by (auto simp: insert_request_def split: option.splits)

text \<open>
  A chain of insertions: \<open>stores ! i\<close> is the store before the i-th request is
  inserted, \<open>ids ! i\<close> the id that insertion returns.
\<close>

lemma batch_loop_chain:
  "length stores = Suc (length reqs) \<Longrightarrow> length ids = length reqs \<Longrightarrow>
   (\<forall>i<length reqs. insert_request env rq (reqs ! i) (stores ! i) = (Some (ids ! i), stores ! Suc i)) \<Longrightarrow>
   batch_loop env rq reqs acc (stores ! 0) = (Reply (acc @ ids), stores ! length reqs)"
proof (induction reqs arbitrary: stores ids acc)
  case Nil
  then show ?case by simp
next
  case (Cons r rs)
  from Cons.prems(1) obtain s0 rest where stores: "stores = s0 # rest" and
    lr: "length rest = Suc (length rs)"
    by (cases stores) auto
  from Cons.prems(2) obtain q qs where ids: "ids = q # qs" and lq: "length qs = length rs"
    by (cases ids) auto
  from Cons.prems(3) have first: "insert_request env rq r s0 = (Some q, rest ! 0)"
    unfolding stores ids by (auto dest: spec [of _ 0])
  have later: "\<forall>i<length rs. insert_request env rq (rs ! i) (rest ! i) = (Some (qs ! i), rest ! Suc i)"
  proof (intro allI impI)
    fix i assume "i < length rs"
    then have "Suc i < length (r # rs)" by simp
    with Cons.prems(3) have
      "insert_request env rq ((r # rs) ! Suc i) (stores ! Suc i) = (Some (ids ! Suc i), stores ! Suc (Suc i))"
      by blast
    then show "insert_request env rq (rs ! i) (rest ! i) = (Some (qs ! i), rest ! Suc i)"
      unfolding stores ids by simp
  qed
  from Cons.IH [OF lr lq later, of "acc @ [q]"] first show ?case
    unfolding stores ids by simp
qed

lemma batch_loop_reply:
  "batch_loop env rq reqs acc store = (Reply ids, store') \<Longrightarrow>
   \<exists>stores new. ids = acc @ new \<and> length new = length reqs \<and>
     length stores = Suc (length reqs) \<and> stores ! 0 = store \<and> stores ! length reqs = store' \<and>
     (\<forall>i<length reqs. insert_request env rq (reqs ! i) (stores ! i) = (Some (new ! i), stores ! Suc i))"
proof (induction reqs arbitrary: acc store)
  case Nil
  then show ?case by (auto intro: exI [of _ "[store]"])
next
  case (Cons r rs)
  from Cons.prems obtain q st1 where
    step: "insert_request env rq r store = (Some q, st1)" and
    rest: "batch_loop env rq rs (acc @ [q]) st1 = (Reply ids, store')"
    by (auto split: prod.splits option.splits)
  from Cons.IH [OF rest] obtain stores new where
    ids: "ids = (acc @ [q]) @ new" and len: "length new = length rs" and
    ls: "length stores = Suc (length rs)" and s0: "stores ! 0 = st1" and
    sn: "stores ! length rs = store'" and
    each: "\<forall>i<length rs. insert_request env rq (rs ! i) (stores ! i) = (Some (new ! i), stores ! Suc i)"
    by blast
  have "\<forall>i<length (r # rs). insert_request env rq ((r # rs) ! i) ((store # stores) ! i) =
          (Some ((q # new) ! i), (store # stores) ! Suc i)"
  proof (intro allI impI)
    fix i assume "i < length (r # rs)"
    then show "insert_request env rq ((r # rs) ! i) ((store # stores) ! i) =
          (Some ((q # new) ! i), (store # stores) ! Suc i)"
      using step each s0 by (cases i) simp_all
  qed
  with ids len ls sn show ?case
    by (intro exI [of _ "store # stores"] exI [of _ "q # new"]) simp
qed

lemma batch_loop_throw:
  "k < length reqs \<Longrightarrow> length stores = Suc k \<Longrightarrow> length ids = k \<Longrightarrow>
   (\<forall>i<k. insert_request env rq (reqs ! i) (stores ! i) = (Some (ids ! i), stores ! Suc i)) \<Longrightarrow>
   insert_request env rq (reqs ! k) (stores ! k) = (None, st) \<Longrightarrow>
   batch_loop env rq reqs acc (stores ! 0) = (Thrown, st)"
proof (induction reqs arbitrary: k stores ids acc)
  case Nil
  then show ?case by simp
next
  case (Cons r rs)
  show ?case
  proof (cases k)
    case 0
    with Cons.prems show ?thesis by simp
  next
    case (Suc j)
    from Cons.prems(2) Suc obtain s0 rest where stores: "stores = s0 # rest" and
      lr: "length rest = Suc j"
      by (cases stores) auto
    from Cons.prems(3) Suc obtain q qs where ids: "ids = q # qs" and lq: "length qs = j"
      by (cases ids) auto
    from Cons.prems(4) Suc have first: "insert_request env rq r s0 = (Some q, rest ! 0)"
      unfolding stores ids by (auto dest: spec [of _ 0])
    have a: "j < length rs" using Cons.prems(1) Suc by simp
    have later: "\<forall>i<j. insert_request env rq (rs ! i) (rest ! i) = (Some (qs ! i), rest ! Suc i)"
    proof (intro allI impI)
      fix i assume "i < j"
      then have "Suc i < k" using Suc by simp
      with Cons.prems(4) have
        "insert_request env rq ((r # rs) ! Suc i) (stores ! Suc i) = (Some (ids ! Suc i), stores ! Suc (Suc i))"
        by blast
      then show "insert_request env rq (rs ! i) (rest ! i) = (Some (qs ! i), rest ! Suc i)"
        unfolding stores ids by simp
    qed
    have last: "insert_request env rq (rs ! j) (rest ! j) = (None, st)"
      using Cons.prems(5) Suc unfolding stores by simp
    from Cons.IH [OF a lr lq later last, of "acc @ [q]"] first show ?thesis
      unfolding stores by simp
  qed
qed

text \<open>
  Claim C8. For every list of transaction requests, with \<open>inserted r v\<close> the object
  the handler builds for request r before the overrides are spread over it:
  the batch replies with the ids and leaves the store \<open>store'\<close> exactly when there
  is a chain of stores, from the given one to \<open>store'\<close>, such that for every position
  i \<open>insertTransaction\<close>, called on the i-th request's transaction and the i-th store,
  returns the i-th id and the next store; so there is one call per element, in list
  order, and as many ids as requests, the i-th being the one created for the i-th
  request. The batch is not atomic: when the first k elements are inserted along
  such a chain and element k fails (\<open>BigInt\<close>, the overrides or \<open>insertTransaction\<close>
  throws), the handler throws and the store keeps the k insertions made before.
\<close>

theorem sendTransactionBatch_in_order:
  "(let inserted = (\<lambda>r v. \<lparr>isUserOp = False, ins_chainId = req_chainId rq,
                transactionMode = req_transactionMode rq, ins_from = req_fromAddress rq,
                ins_to = toAddress r, ins_data = tx_data r, ins_value = v,
                ins_overrides = None\<rparr>)
    in
    (sendTransactionBatch env rq reqs store = (Reply ids, store') \<longleftrightarrow>
       (\<exists>stores. length stores = Suc (length reqs) \<and> length ids = length reqs \<and>
          stores ! 0 = store \<and> stores ! length reqs = store' \<and>
          (\<forall>i<length reqs. \<exists>v spread.
             BigInt env (tx_value (reqs ! i)) = Some v \<and>
             parseTransactionOverrides env (txOverrides (reqs ! i)) = Some spread \<and>
             insertTransaction env (spread (inserted (reqs ! i) v)) (stores ! i) =
               (Some (ids ! i), stores ! Suc i)))) \<and>
    (\<forall>k stores qs st.
       k < length reqs \<and> length stores = Suc k \<and> length qs = k \<and> stores ! 0 = store \<and>
       (\<forall>i<k. \<exists>v spread.
          BigInt env (tx_value (reqs ! i)) = Some v \<and>
          parseTransactionOverrides env (txOverrides (reqs ! i)) = Some spread \<and>
          insertTransaction env (spread (inserted (reqs ! i) v)) (stores ! i) =
            (Some (qs ! i), stores ! Suc i)) \<and>
       ((BigInt env (tx_value (reqs ! k)) = None \<and> st = stores ! k) \<or>
        (\<exists>v. BigInt env (tx_value (reqs ! k)) = Some v \<and>
           parseTransactionOverrides env (txOverrides (reqs ! k)) = None \<and> st = stores ! k) \<or>
        (\<exists>v spread. BigInt env (tx_value (reqs ! k)) = Some v \<and>
           parseTransactionOverrides env (txOverrides (reqs ! k)) = Some spread \<and>
           insertTransaction env (spread (inserted (reqs ! k) v)) (stores ! k) = (None, st))) \<longrightarrow>
       sendTransactionBatch env rq reqs store = (Thrown, st)))"
proof -
  have reply: "sendTransactionBatch env rq reqs store = (Reply ids, store') \<longleftrightarrow>
       (\<exists>stores. length stores = Suc (length reqs) \<and> length ids = length reqs \<and>
          stores ! 0 = store \<and> stores ! length reqs = store' \<and>
          (\<forall>i<length reqs.
             insert_request env rq (reqs ! i) (stores ! i) = (Some (ids ! i), stores ! Suc i)))"
  proof
    assume "sendTransactionBatch env rq reqs store = (Reply ids, store')"
    then have "batch_loop env rq reqs [] store = (Reply ids, store')"
      by (simp add: sendTransactionBatch_def)
    from batch_loop_reply [OF this] show
      "\<exists>stores. length stores = Suc (length reqs) \<and> length ids = length reqs \<and>
          stores ! 0 = store \<and> stores ! length reqs = store' \<and>
          (\<forall>i<length reqs.
             insert_request env rq (reqs ! i) (stores ! i) = (Some (ids ! i), stores ! Suc i))"
      by auto
  next
    assume "\<exists>stores. length stores = Suc (length reqs) \<and> length ids = length reqs \<and>
          stores ! 0 = store \<and> stores ! length reqs = store' \<and>
          (\<forall>i<length reqs.
             insert_request env rq (reqs ! i) (stores ! i) = (Some (ids ! i), stores ! Suc i))"
    then obtain stores where "length stores = Suc (length reqs)" "length ids = length reqs"
      "stores ! 0 = store" "stores ! length reqs = store'"
      "\<forall>i<length reqs.
             insert_request env rq (reqs ! i) (stores ! i) = (Some (ids ! i), stores ! Suc i)"
      by blast
    with batch_loop_chain [of stores reqs ids env rq "[]"]
    show "sendTransactionBatch env rq reqs store = (Reply ids, store')"
      by (simp add: sendTransactionBatch_def)
  qed
  have throw: "sendTransactionBatch env rq reqs store = (Thrown, st)"
    if "k < length reqs" "length stores = Suc k" "length qs = k" "stores ! 0 = store"
      "\<forall>i<k. insert_request env rq (reqs ! i) (stores ! i) = (Some (qs ! i), stores ! Suc i)"
      "insert_request env rq (reqs ! k) (stores ! k) = (None, st)" for k stores qs st
    using batch_loop_throw [of k reqs stores qs env rq st "[]"] that
    by (simp add: sendTransactionBatch_def)
  show ?thesis
    unfolding Let_def insert_request_Some [symmetric] insert_request_None [symmetric]
    using reply throw by blast
qed

theorem sendTransactionBatch_in_order_witness:
  "sendTransactionBatch
     \<lparr>BigInt = (\<lambda>s. if s = ''7'' then Some 7 else None),
      parseTransactionOverrides =
        (\<lambda>ov. case ov of None \<Rightarrow> Some (\<lambda>t. t) | Some n \<Rightarrow> Some (\<lambda>t. t\<lparr>ins_value := n\<rparr>)),
      insertTransaction =
        (\<lambda>t st. (Some (replicate (Suc (length st)) CHR ''q''), st @ [t]))\<rparr>
     \<lparr>req_chainId = 137, req_fromAddress = ''0xA'', req_transactionMode = None\<rparr>
     [\<lparr>toAddress = None, tx_data = ''0x'', tx_value = ''7'', txOverrides = None\<rparr>,
      \<lparr>toAddress = None, tx_data = ''0x'', tx_value = ''7'', txOverrides = Some 9\<rparr>]
     []
   = (Reply [''q'', ''qq''],
      [\<lparr>isUserOp = False, ins_chainId = 137, transactionMode = None, ins_from = ''0xA'', ins_to = None, ins_data = ''0x'', ins_value = 7, ins_overrides = None\<rparr>,
       \<lparr>isUserOp = False, ins_chainId = 137, transactionMode = None, ins_from = ''0xA'', ins_to = None, ins_data = ''0x'', ins_value = 9, ins_overrides = None\<rparr>]) \<and>
   sendTransactionBatch
     \<lparr>BigInt = (\<lambda>s. if s = ''7'' then Some 7 else None),
      parseTransactionOverrides =
        (\<lambda>ov. case ov of None \<Rightarrow> Some (\<lambda>t. t) | Some n \<Rightarrow> Some (\<lambda>t. t\<lparr>ins_value := n\<rparr>)),
      insertTransaction =
        (\<lambda>t st. (Some (replicate (Suc (length st)) CHR ''q''), st @ [t]))\<rparr>
     \<lparr>req_chainId = 137, req_fromAddress = ''0xA'', req_transactionMode = None\<rparr>
     [\<lparr>toAddress = None, tx_data = ''0x'', tx_value = ''7'', txOverrides = None\<rparr>,
      \<lparr>toAddress = None, tx_data = ''0x'', tx_value = ''seven'', txOverrides = None\<rparr>,
      \<lparr>toAddress = None, tx_data = ''0x'', tx_value = ''7'', txOverrides = Some 9\<rparr>]
     []
   = (Thrown,
      [\<lparr>isUserOp = False, ins_chainId = 137, transactionMode = None, ins_from = ''0xA'', ins_to = None, ins_data = ''0x'', ins_value = 7, ins_overrides = None\<rparr>])"
proof -
  let ?env = "\<lparr>BigInt = (\<lambda>s. if s = ''7'' then Some 7 else None),
      parseTransactionOverrides =
        (\<lambda>ov. case ov of None \<Rightarrow> Some (\<lambda>t. t) | Some n \<Rightarrow> Some (\<lambda>t. t\<lparr>ins_value := n\<rparr>)),
      insertTransaction =
        (\<lambda>t st. (Some (replicate (Suc (length st)) CHR ''q''), st @ [t]))\<rparr>"
  let ?rq = "\<lparr>req_chainId = 137, req_fromAddress = ''0xA'', req_transactionMode = None\<rparr>"
  let ?r1 = "\<lparr>toAddress = None, tx_data = ''0x'', tx_value = ''7'', txOverrides = None\<rparr>"
  let ?r2 = "\<lparr>toAddress = None, tx_data = ''0x'', tx_value = ''7'', txOverrides = Some 9\<rparr>"
  let ?r3 = "\<lparr>toAddress = None, tx_data = ''0x'', tx_value = ''seven'', txOverrides = None\<rparr>"
  let ?t7 = "\<lparr>isUserOp = False, ins_chainId = 137, transactionMode = None, ins_from = ''0xA'', ins_to = None, ins_data = ''0x'', ins_value = 7, ins_overrides = None\<rparr>"
  let ?t9 = "\<lparr>isUserOp = False, ins_chainId = 137, transactionMode = None, ins_from = ''0xA'', ins_to = None, ins_data = ''0x'', ins_value = 9, ins_overrides = None\<rparr>"
  note ordered = sendTransactionBatch_in_order [where env = ?env and rq = ?rq
      and reqs = "[?r1, ?r2]" and store = "[]" and ids = "[''q'', ''qq'']"
      and store' = "[?t7, ?t9]", unfolded Let_def]
  have chain: "\<exists>stores. length stores = Suc (length [?r1, ?r2]) \<and>
      length [''q'', ''qq''] = length [?r1, ?r2] \<and> stores ! 0 = [] \<and>
      stores ! length [?r1, ?r2] = [?t7, ?t9] \<and>
      (\<forall>i<length [?r1, ?r2]. \<exists>v spread.
         BigInt ?env (tx_value ([?r1, ?r2] ! i)) = Some v \<and>
         parseTransactionOverrides ?env (txOverrides ([?r1, ?r2] ! i)) = Some spread \<and>
         insertTransaction ?env
           (spread \<lparr>isUserOp = False, ins_chainId = req_chainId ?rq,
              transactionMode = req_transactionMode ?rq, ins_from = req_fromAddress ?rq,
              ins_to = toAddress ([?r1, ?r2] ! i), ins_data = tx_data ([?r1, ?r2] ! i),
              ins_value = v, ins_overrides = None\<rparr>) (stores ! i) =
           (Some ([''q'', ''qq''] ! i), stores ! Suc i))"
    by (rule exI [of _ "[[], [?t7], [?t7, ?t9]]"]) (simp add: less_Suc_eq)
  from ordered chain have a: "sendTransactionBatch ?env ?rq [?r1, ?r2] [] =
      (Reply [''q'', ''qq''], [?t7, ?t9])"
    by blast
  have b: "sendTransactionBatch ?env ?rq [?r1, ?r3, ?r2] [] = (Thrown, [?t7])"
    by (simp add: sendTransactionBatch_def insert_request_def)
  from a b show ?thesis by simp
qed

section \<open>Properties of the smart wallet cache\<close>

lemma getSmartWalletV5_caches:
  "getSmartWalletV5 env p c = (Reply w, c') \<Longrightarrow> c' (cacheKey p) = Some w"
  by (auto simp: getSmartWalletV5_def split: option.splits)

lemma getSmartWalletV5_hit:
  "c (cacheKey p) = Some w \<Longrightarrow> getSmartWalletV5 env p c = (Reply w, c)"
  by (simp add: getSmartWalletV5_def)

text \<open>
  Claim C10. The cache key is built from the chain id, the account address and the
  sender only. Whenever a call has returned a wallet, a following call with the same
  chain id, account address and sender returns that same wallet and leaves the cache
  as it is, whatever factory address (and whatever else) the second call supplies.
\<close>

theorem getSmartWalletV5_ignores_factory:
  assumes first: "getSmartWalletV5 env p c = (Reply w, c')"
    and same: "chain_id (param_chain p') = chain_id (param_chain p)"
      "accountAddress p' = accountAddress p" "param_from p' = param_from p"
  shows "getSmartWalletV5 env' p' c' = (Reply w, c')"
proof -
  from same have "cacheKey p' = cacheKey p"
    by (simp add: cacheKey_def)
  with getSmartWalletV5_caches [OF first] show ?thesis
    by (simp add: getSmartWalletV5_hit)
qed

theorem getSmartWalletV5_ignores_factory_witness:
  "getSmartWalletV5
     \<lparr>readFactory = (\<lambda>c a. None), getAccount = (\<lambda>i f. Some f),
      connectSmartWallet = (\<lambda>c f a. Some (f @ '':'' @ a))\<rparr>
     \<lparr>param_chain = \<lparr>chain_id = 137, chain_rpc = ''r2''\<rparr>, accountAddress = ''0xAcc'',
      param_from = ''0xA'', accountFactoryAddress = Some ''0xF2''\<rparr>
     [''137-0xAcc-0xA'' \<mapsto> ''0xF1:0xA'']
   = (Reply ''0xF1:0xA'', [''137-0xAcc-0xA'' \<mapsto> ''0xF1:0xA'']) \<and>
   fst (getSmartWalletV5
     \<lparr>readFactory = (\<lambda>c a. None), getAccount = (\<lambda>i f. Some f),
      connectSmartWallet = (\<lambda>c f a. Some (f @ '':'' @ a))\<rparr>
     \<lparr>param_chain = \<lparr>chain_id = 137, chain_rpc = ''r2''\<rparr>, accountAddress = ''0xAcc'',
      param_from = ''0xA'', accountFactoryAddress = Some ''0xF2''\<rparr>
     Map.empty)
   = Reply ''0xF2:0xA''"
proof -
  have key: "decimal 137 = ''137''"
    by code_simp
  have first: "getSmartWalletV5
     \<lparr>readFactory = (\<lambda>c a. None), getAccount = (\<lambda>i f. Some f),
      connectSmartWallet = (\<lambda>c f a. Some (f @ '':'' @ a))\<rparr>
     \<lparr>param_chain = \<lparr>chain_id = 137, chain_rpc = ''r1''\<rparr>, accountAddress = ''0xAcc'',
      param_from = ''0xA'', accountFactoryAddress = Some ''0xF1''\<rparr>
     Map.empty
   = (Reply ''0xF1:0xA'', [''137-0xAcc-0xA'' \<mapsto> ''0xF1:0xA''])"
    by (simp add: getSmartWalletV5_def cacheKey_def present_def key)
  have fresh: "fst (getSmartWalletV5
     \<lparr>readFactory = (\<lambda>c a. None), getAccount = (\<lambda>i f. Some f),
      connectSmartWallet = (\<lambda>c f a. Some (f @ '':'' @ a))\<rparr>
     \<lparr>param_chain = \<lparr>chain_id = 137, chain_rpc = ''r2''\<rparr>, accountAddress = ''0xAcc'',
      param_from = ''0xA'', accountFactoryAddress = Some ''0xF2''\<rparr>
     Map.empty)
   = Reply ''0xF2:0xA''"
    by (simp add: getSmartWalletV5_def cacheKey_def present_def key)
  from getSmartWalletV5_ignores_factory [OF first, of
     "\<lparr>param_chain = \<lparr>chain_id = 137, chain_rpc = ''r2''\<rparr>, accountAddress = ''0xAcc'',
      param_from = ''0xA'', accountFactoryAddress = Some ''0xF2''\<rparr>"] fresh
  show ?thesis
    by simp
qed

section \<open>Properties of the chain indexer registry\<close>


















lemma solo_step:
  "step env t s = (t', s1) \<Longrightarrow>
   interleave env (replicate n True) (t', t2, s1) = cfg \<Longrightarrow>
   interleave env (replicate (Suc n) True) (t, t2, s) = cfg"
  by simp








section \<open>Properties of the transaction store\<close>

lemma store_get_update_same:
  "store_get i s = Inr r \<Longrightarrow> store_get i (update_record i f s) = Inr (f r) \<or> tr_id (f r) \<noteq> i"
  by (induction s) (auto simp: store_get_def split: if_splits)

lemma store_get_update:
  "store_get i s = Inr r \<Longrightarrow> tr_id (f r) = i \<Longrightarrow> store_get i (update_record i f s) = Inr (f r)"
  by (induction s) (auto simp: store_get_def split: if_splits)

lemma store_get_update_other:
  "j \<noteq> i \<Longrightarrow> (\<And>x. tr_id (f x) = tr_id x) \<Longrightarrow>
   store_get j (update_record i f s) = store_get j s"
  by (induction s) (auto simp: store_get_def)

lemma length_update_record [simp]: "length (update_record i f s) = length s"
  by (induction s) auto

lemma store_get_id: "store_get i s = Inr r \<Longrightarrow> tr_id r = i"
  by (auto simp: store_get_def split: option.splits dest: find_Some_iff [THEN iffD1])

lemma fresh_id_bound:
  "r \<in> set s \<Longrightarrow> tr_id r < fold (\<lambda>r n. max n (Suc (tr_id r))) s n0"
proof (induction s arbitrary: n0)
  case Nil
  then show ?case by simp
next
  case (Cons x xs)
  have mono: "\<And>m. m \<le> fold (\<lambda>r n. max n (Suc (tr_id r))) xs m"
  proof -
    fix m show "m \<le> fold (\<lambda>r n. max n (Suc (tr_id r))) xs m"
    proof (induction xs arbitrary: m)
      case Nil
      then show ?case by simp
    next
      case (Cons y ys)
      have "m \<le> max m (Suc (tr_id y))" by simp
      also have "\<dots> \<le> fold (\<lambda>r n. max n (Suc (tr_id r))) ys (max m (Suc (tr_id y)))"
        by (rule Cons.IH)
      finally show ?case by simp
    qed
  qed
  show ?case
  proof (cases "r = x")
    case True
    have "tr_id x < max n0 (Suc (tr_id x))" by simp
    also have "\<dots> \<le> fold (\<lambda>r n. max n (Suc (tr_id r))) xs (max n0 (Suc (tr_id x)))"
      by (rule mono)
    finally show ?thesis using True by simp
  next
    case False
    with Cons.prems have "r \<in> set xs" by simp
    from Cons.IH [OF this] show ?thesis by simp
  qed
qed

lemma fresh_id_fresh: "r \<in> set s \<Longrightarrow> tr_id r \<noteq> fresh_id s"
  using fresh_id_bound [of r s 0] by (simp add: fresh_id_def)

lemma find_holds_key:
  "find (holds_key window now k) s = Some prior \<Longrightarrow> prior \<in> set s \<and> holds_key window now k prior"
  by (auto simp: find_Some_iff)

lemma find_holds_key_None:
  "find (holds_key window now k) s = None \<longleftrightarrow> \<not> (\<exists>r\<in>set s. holds_key window now k r)"
  by (auto simp: find_None_iff)

lemma enqueue_existing:
  assumes "key = Some k" and "\<exists>r\<in>set s. holds_key window now k r"
  shows "snd (enqueue window now pc key ov s) = s \<and>
         (\<exists>r\<in>set s. holds_key window now k r \<and> tr_id r = fst (enqueue window now pc key ov s))"
proof -
  from assms(2) obtain prior where f: "find (holds_key window now k) s = Some prior"
    using find_holds_key_None [of window now k s] by (cases "find (holds_key window now k) s") auto
  with assms(1) have "enqueue window now pc key ov s = (tr_id prior, s)"
    by (simp add: enqueue_def store_insert_def new_request_def)
  with find_holds_key [OF f] show ?thesis by auto
qed

lemma enqueue_new:
  assumes "\<forall>k. key = Some k \<longrightarrow> \<not> (\<exists>r\<in>set s. holds_key window now k r)"
  shows "enqueue window now pc key ov s =
           (fresh_id s, s @ [(new_request pc key ov)\<lparr>tr_id := fresh_id s\<rparr>])"
proof (cases key)
  case None
  then show ?thesis by (simp add: enqueue_def store_insert_def new_request_def)
next
  case (Some k)
  with assms have "find (holds_key window now k) s = None"
    by (auto simp: find_holds_key_None)
  with Some show ?thesis by (simp add: enqueue_def store_insert_def new_request_def)
qed

text \<open>
  Claim C3. For every enqueue call: if it carries an idempotency key and the store
  holds a record with that key that is non-terminal or recently succeeded, the store
  is left as it is and the id returned is the id of such a record; otherwise the
  store grows by exactly one record, which has status \<open>queued\<close>, carries the call and
  the key, and whose id (the one returned) is the id of no record stored before.
\<close>

theorem enqueue_idempotent:
  "(\<forall>k. key = Some k \<and>
        (\<exists>r\<in>set s. tr_idempotencyKey r = Some k \<and>
           (\<not> terminal (tr_status r) \<or> recently_succeeded window now r)) \<longrightarrow>
      snd (enqueue window now pc key ov s) = s \<and>
      (\<exists>r\<in>set s. tr_idempotencyKey r = Some k \<and>
           (\<not> terminal (tr_status r) \<or> recently_succeeded window now r) \<and>
           tr_id r = fst (enqueue window now pc key ov s))) \<and>
   ((\<forall>k. key = Some k \<longrightarrow>
        \<not> (\<exists>r\<in>set s. tr_idempotencyKey r = Some k \<and>
           (\<not> terminal (tr_status r) \<or> recently_succeeded window now r))) \<longrightarrow>
      (\<exists>new. snd (enqueue window now pc key ov s) = s @ [new] \<and>
         tr_id new = fst (enqueue window now pc key ov s) \<and>
         tr_status new = Queued \<and>
         tr_idempotencyKey new = key \<and>
         tr_chainId new = call_chainId pc \<and> tr_from new = call_from pc \<and>
         tr_to new = call_to pc \<and> tr_data new = call_data pc \<and> tr_value new = call_value pc \<and>
         (\<forall>r\<in>set s. tr_id r \<noteq> tr_id new)))"
proof -
  have existing: "snd (enqueue window now pc key ov s) = s \<and>
      (\<exists>r\<in>set s. tr_idempotencyKey r = Some k \<and>
           (\<not> terminal (tr_status r) \<or> recently_succeeded window now r) \<and>
           tr_id r = fst (enqueue window now pc key ov s))"
    if "key = Some k \<and>
        (\<exists>r\<in>set s. tr_idempotencyKey r = Some k \<and>
           (\<not> terminal (tr_status r) \<or> recently_succeeded window now r))" for k
  proof -
    from that have "key = Some k" and "\<exists>r\<in>set s. holds_key window now k r"
      by (auto simp: holds_key_def)
    from enqueue_existing [OF this, of pc ov] show ?thesis
      by (auto simp: holds_key_def)
  qed
  have fresh: "\<exists>new. snd (enqueue window now pc key ov s) = s @ [new] \<and>
         tr_id new = fst (enqueue window now pc key ov s) \<and>
         tr_status new = Queued \<and>
         tr_idempotencyKey new = key \<and>
         tr_chainId new = call_chainId pc \<and> tr_from new = call_from pc \<and>
         tr_to new = call_to pc \<and> tr_data new = call_data pc \<and> tr_value new = call_value pc \<and>
         (\<forall>r\<in>set s. tr_id r \<noteq> tr_id new)"
    if "\<forall>k. key = Some k \<longrightarrow>
        \<not> (\<exists>r\<in>set s. tr_idempotencyKey r = Some k \<and>
           (\<not> terminal (tr_status r) \<or> recently_succeeded window now r))"
  proof -
    from that have "\<forall>k. key = Some k \<longrightarrow> \<not> (\<exists>r\<in>set s. holds_key window now k r)"
      by (simp add: holds_key_def)
    from enqueue_new [OF this, of pc ov]
    have e: "enqueue window now pc key ov s =
           (fresh_id s, s @ [(new_request pc key ov)\<lparr>tr_id := fresh_id s\<rparr>])" .
    show ?thesis
      unfolding e
      by (rule exI [of _ "(new_request pc key ov)\<lparr>tr_id := fresh_id s\<rparr>"])
         (simp add: new_request_def fresh_id_fresh)
  qed
  from existing fresh show ?thesis
    by blast
qed

theorem enqueue_idempotent_witness:
  "enqueue 10 100 example_call (Some ''k'') None [new_request example_call (Some ''k'') None] =
     (0, [new_request example_call (Some ''k'') None]) \<and>
   fst (enqueue 10 100 example_call (Some ''k'') None
          [(new_request example_call (Some ''k'') None)\<lparr>tr_status := Errored\<rparr>]) = 1 \<and>
   length (snd (enqueue 10 100 example_call (Some ''k'') None
          [(new_request example_call (Some ''k'') None)\<lparr>tr_status := Errored\<rparr>])) = 2"
proof -
  have a: "enqueue 10 100 example_call (Some ''k'') None
             [new_request example_call (Some ''k'') None] =
           (0, [new_request example_call (Some ''k'') None])"
    using enqueue_idempotent [of "Some ''k''" "[new_request example_call (Some ''k'') None]"
        10 100 example_call None]
    by (cases "enqueue 10 100 example_call (Some ''k'') None
                 [new_request example_call (Some ''k'') None]")
       (simp add: new_request_def)
  have b: "fst (enqueue 10 100 example_call (Some ''k'') None
          [(new_request example_call (Some ''k'') None)\<lparr>tr_status := Errored\<rparr>]) = 1 \<and>
   length (snd (enqueue 10 100 example_call (Some ''k'') None
          [(new_request example_call (Some ''k'') None)\<lparr>tr_status := Errored\<rparr>])) = 2"
    by (simp add: enqueue_def store_insert_def holds_key_def recently_succeeded_def
        new_request_def fresh_id_def)
  from a b show ?thesis by simp
qed

lemma markCancelled_queued:
  assumes "store_get i s = Inr r" and "tr_status r = Queued"
  shows "fst (markCancelled i s) = Inr () \<and>
         store_get i (snd (markCancelled i s)) = Inr (r\<lparr>tr_status := Cancelled\<rparr>) \<and>
         length (snd (markCancelled i s)) = length s \<and>
         (\<forall>j. j \<noteq> i \<longrightarrow> store_get j (snd (markCancelled i s)) = store_get j s)"
proof -
  from assms have m: "markCancelled i s =
      (Inr (), update_record i (\<lambda>x. x\<lparr>tr_status := Cancelled\<rparr>) s)"
    by (simp add: markCancelled_def)
  have "tr_id (r\<lparr>tr_status := Cancelled\<rparr>) = i"
    using store_get_id [OF assms(1)] by simp
  with assms(1) have "store_get i (update_record i (\<lambda>x. x\<lparr>tr_status := Cancelled\<rparr>) s) =
      Inr (r\<lparr>tr_status := Cancelled\<rparr>)"
    by (rule store_get_update)
  with m show ?thesis
    by (simp add: store_get_update_other)
qed

lemma markCancelled_refused:
  "\<not> (\<exists>r. store_get i s = Inr r \<and> tr_status r = Queued) \<Longrightarrow>
   markCancelled i s = (Inl InvalidTransition, s)"
  by (auto simp: markCancelled_def split: sum.splits)

text \<open>
  Claim C5. For every id, \<open>markCancelled\<close> succeeds if and only if the store holds a
  record under that id whose status is exactly \<open>queued\<close>; it then stores that record
  with the terminal status \<open>cancelled\<close> and touches no other record. In every other
  case (any other status, \<open>submitted\<close> included) it fails with \<open>InvalidTransition\<close> and
  the store is unchanged.
\<close>

theorem markCancelled_only_queued:
  "(fst (markCancelled i s) = Inr () \<longleftrightarrow> (\<exists>r. store_get i s = Inr r \<and> tr_status r = Queued)) \<and>
   (\<forall>r. store_get i s = Inr r \<and> tr_status r = Queued \<longrightarrow>
      store_get i (snd (markCancelled i s)) = Inr (r\<lparr>tr_status := Cancelled\<rparr>) \<and>
      terminal (tr_status (r\<lparr>tr_status := Cancelled\<rparr>)) \<and>
      length (snd (markCancelled i s)) = length s \<and>
      (\<forall>j. j \<noteq> i \<longrightarrow> store_get j (snd (markCancelled i s)) = store_get j s)) \<and>
   (\<not> (\<exists>r. store_get i s = Inr r \<and> tr_status r = Queued) \<longrightarrow>
      markCancelled i s = (Inl InvalidTransition, s))"
proof -
  have yes: "fst (markCancelled i s) = Inr () \<and>
      store_get i (snd (markCancelled i s)) = Inr (r\<lparr>tr_status := Cancelled\<rparr>) \<and>
      terminal (tr_status (r\<lparr>tr_status := Cancelled\<rparr>)) \<and>
      length (snd (markCancelled i s)) = length s \<and>
      (\<forall>j. j \<noteq> i \<longrightarrow> store_get j (snd (markCancelled i s)) = store_get j s)"
    if "store_get i s = Inr r \<and> tr_status r = Queued" for r
    using markCancelled_queued [of i s r] that by simp
  have no: "markCancelled i s = (Inl InvalidTransition, s)"
    if "\<not> (\<exists>r. store_get i s = Inr r \<and> tr_status r = Queued)"
    using that by (rule markCancelled_refused)
  from no have "fst (markCancelled i s) = Inr () \<Longrightarrow> \<exists>r. store_get i s = Inr r \<and> tr_status r = Queued"
    by (cases "\<exists>r. store_get i s = Inr r \<and> tr_status r = Queued") auto
  with yes no show ?thesis
    by blast
qed

theorem markCancelled_only_queued_witness:
  "fst (markCancelled 0 [new_request example_call None None]) = Inr () \<and>
   store_get 0 (snd (markCancelled 0 [new_request example_call None None])) =
     Inr ((new_request example_call None None)\<lparr>tr_status := Cancelled\<rparr>) \<and>
   markCancelled 0 [(new_request example_call None None)\<lparr>tr_status := Submitted\<rparr>] =
     (Inl InvalidTransition, [(new_request example_call None None)\<lparr>tr_status := Submitted\<rparr>])"
  using markCancelled_only_queued [of 0 "[new_request example_call None None]"]
    markCancelled_only_queued [of 0
      "[(new_request example_call None None)\<lparr>tr_status := Submitted\<rparr>]"]
  by (simp add: store_get_def new_request_def)

end
